theory Spec2Isabelle
  imports Main
begin

section \<open>Silence-based segmentation (fingerprint_to_queries.py, split_on_silence)\<close>

text \<open>
  An AudioSegment of pydub is indexed in milliseconds. It is modelled as the list of its
  one-millisecond frames, so that \<open>len(audio)\<close> is the length of the list and
  \<open>audio[s:e]\<close> is sequence slicing.
\<close>

type_synonym audio = "int list"

definition py_slice :: "'a list \<Rightarrow> int \<Rightarrow> int \<Rightarrow> 'a list" where
  \<comment> \<open>\<open>xs[s:e]\<close>: a negative bound counts from the end, both bounds are clamped.\<close>
  "py_slice xs s e =
     (let n = int (length xs);
          a = (if s < 0 then max 0 (n + s) else min s n);
          b = (if e < 0 then max 0 (n + e) else min e n)
      in take (nat (b - a)) (drop (nat a) xs))"

definition padded_range :: "audio \<Rightarrow> int \<Rightarrow> int \<times> int \<Rightarrow> int \<times> int" where
  \<comment> \<open>lines 66-67: \<open>s = max(0, start - keep_silence)\<close>, \<open>e = min(len(audio), end + keep_silence)\<close>\<close>
  "padded_range au keep_silence r =
     (case r of (start, end) \<Rightarrow>
        (max 0 (start - keep_silence), min (int (length au)) (end + keep_silence)))"

definition split_on_silence :: "audio \<Rightarrow> (int \<times> int) list \<Rightarrow> int \<Rightarrow> audio list" where
  \<comment> \<open>\<open>non_silent_ranges\<close> is what \<open>silence.detect_nonsilent\<close> (pydub) returned for the audio.\<close>
  "split_on_silence au non_silent_ranges keep_silence =
     map (\<lambda>r. case padded_range au keep_silence r of (s, e) \<Rightarrow> py_slice au s e)
         non_silent_ranges"

definition segments_of :: "audio \<Rightarrow> (int \<times> int) list \<Rightarrow> int \<Rightarrow> audio list" where
  \<comment> \<open>process_file, lines 162-167: the whole file is one segment when no split was found.\<close>
  "segments_of au non_silent_ranges keep_silence =
     (let segments = split_on_silence au non_silent_ranges keep_silence
      in if segments = [] then [au] else segments)"

section \<open>Query strings (make_query_from_metadata)\<close>

definition digit_of :: "nat \<Rightarrow> char" where
  "digit_of d = ''0123456789'' ! d"

fun str_nat :: "nat \<Rightarrow> string" where
  "str_nat n = (if n < 10 then [digit_of n] else str_nat (n div 10) @ [digit_of (n mod 10)])"

declare str_nat.simps [simp del]

definition truthy_str :: "string \<Rightarrow> bool" where
  "truthy_str s = (s \<noteq> [])"

definition make_query_from_metadata :: "(string \<times> string) option \<Rightarrow> nat \<Rightarrow> string" where
  "make_query_from_metadata meta index =
     (case meta of
        Some (title, artist) \<Rightarrow>
          if truthy_str title then
            (if truthy_str artist then title @ '' - '' @ artist else title)
          else ''Unknown Track '' @ str_nat (index + 1)
      | None \<Rightarrow> ''Unknown Track '' @ str_nat (index + 1))"

section \<open>Exceptions\<close>

text \<open>
  A Python exception is a value. Every \<open>except Exception\<close> of the source catches all
  of them; only create_playlist.py tells SpotifyException from the others.
\<close>

datatype error = SpotifyException | OtherException string

section \<open>Fingerprint tier (fingerprint_and_lookup)\<close>

text \<open>
  The AcoustID response: a list of result dicts, each with an optional list of recordings,
  each with an optional title and an optional list of artists with an optional name.
  An absent key and a \<open>None\<close> value are both \<open>None\<close> here (\<open>.get\<close> returns None for
  either). The \<open>NotDict\<close> constructors stand for an entry that is no dict, on which
  \<open>.get\<close> raises AttributeError.
\<close>

datatype artist = Artist "string option" | ArtistNotDict

datatype recording = Recording "string option" "artist list option" | RecordingNotDict

datatype candidate = Candidate "recording list option" | CandidateNotDict

datatype lookup_result =
    Bare "candidate list"              \<comment> \<open>a list of result dicts\<close>
  | Pair string "candidate list"       \<comment> \<open>a tuple \<open>(status, list)\<close>\<close>
  | NotIterable                        \<comment> \<open>anything else: the \<open>for\<close> loop raises TypeError\<close>

record acoustid_module =
  fingerprint_file :: "string \<Rightarrow> error + (nat \<times> string)"
  lookup :: "string \<Rightarrow> string \<Rightarrow> nat \<Rightarrow> error + lookup_result"

definition or_empty :: "'a list option \<Rightarrow> 'a list" where
  \<comment> \<open>\<open>x or []\<close> for a list-or-None \<open>x\<close>\<close>
  "or_empty x = (case x of None \<Rightarrow> [] | Some xs \<Rightarrow> xs)"

definition or_empty_str :: "string option \<Rightarrow> string" where
  \<comment> \<open>\<open>x or ""\<close> for a string-or-None \<open>x\<close>\<close>
  "or_empty_str x = (case x of None \<Rightarrow> [] | Some s \<Rightarrow> s)"

definition truthy_opt :: "string option \<Rightarrow> bool" where
  "truthy_opt x = (case x of None \<Rightarrow> False | Some s \<Rightarrow> truthy_str s)"

fun first_artist_name :: "artist list \<Rightarrow> error + string option" where
  \<comment> \<open>line 107: \<open>artists[0].get("name") if artists else None\<close>\<close>
  "first_artist_name [] = Inr None"
| "first_artist_name (Artist name # _) = Inr name"
| "first_artist_name (ArtistNotDict # _) = Inl (OtherException ''AttributeError'')"

fun scan_candidates :: "candidate list \<Rightarrow> error + (string \<times> string) option" where
  \<comment> \<open>lines 101-109, the loop body without its \<open>try\<close>; \<open>Inr None\<close> is falling out of the loop\<close>
  "scan_candidates [] = Inr None"
| "scan_candidates (CandidateNotDict # _) = Inl (OtherException ''AttributeError'')"
| "scan_candidates (Candidate recordings # rest) =
     (case or_empty recordings of
        [] \<Rightarrow> scan_candidates rest
      | RecordingNotDict # _ \<Rightarrow> Inl (OtherException ''AttributeError'')
      | Recording title artists # _ \<Rightarrow>
          (case first_artist_name (or_empty artists) of
             Inl e \<Rightarrow> Inl e
           | Inr artist \<Rightarrow>
               if truthy_opt title then Inr (Some (or_empty_str title, or_empty_str artist))
               else scan_candidates rest))"

definition extract_candidate :: "lookup_result \<Rightarrow> (string \<times> string) option" where
  \<comment> \<open>lines 93-113: normalise the tuple shape, run the loop, swallow what it raises\<close>
  "extract_candidate results =
     (case results of
        NotIterable \<Rightarrow> None
      | Bare candidates \<Rightarrow>
          (case scan_candidates candidates of Inl e \<Rightarrow> None | Inr r \<Rightarrow> r)
      | Pair status candidates \<Rightarrow>
          (case scan_candidates candidates of Inl e \<Rightarrow> None | Inr r \<Rightarrow> r))"

definition fingerprint_and_lookup ::
  "acoustid_module option \<Rightarrow> string \<Rightarrow> string option \<Rightarrow> (string \<times> string) option" where
  "fingerprint_and_lookup acoustid segment_path acoustid_key =
     (case acoustid of
        None \<Rightarrow> None
      | Some ac \<Rightarrow>
          (case acoustid_key of
             None \<Rightarrow> None
           | Some key \<Rightarrow>
               (case fingerprint_file ac segment_path of
                  Inl e \<Rightarrow> None
                | Inr (duration, fp) \<Rightarrow>
                    (case lookup ac key fp duration of
                       Inl e \<Rightarrow> None
                     | Inr results \<Rightarrow> extract_candidate results))))"

section \<open>Tag tier (read_tags)\<close>

text \<open>
  A tag value is a str, a mutagen text frame (an object with its own truth value whose
  \<open>str()\<close> is its text), or a list of such. The tags expose an ID3 frame under
  \<open>TIT2\<close>/\<open>TPE1\<close> and a generic value under \<open>title\<close>/\<open>artist\<close>; \<open>tag_others\<close>
  tells whether any further key is present (it decides the truth value of the tags).
\<close>

datatype scalar = Str string | Frame bool string

datatype tagval = One scalar | Many "scalar list"

record tags =
  tag_TIT2 :: "(bool \<times> string) option"
  tag_TPE1 :: "(bool \<times> string) option"
  tag_title :: "tagval option"
  tag_artist :: "tagval option"
  tag_others :: bool

text \<open>
  What \<open>MutagenFile(path)\<close> returns: None, or a file object with its \<open>tags\<close> (or
  None). A mutagen file object is a mapping over its tags, so it is true exactly when its
  tags are: the test \<open>not m or not getattr(m, "tags", None)\<close> is the test on the tags.
\<close>

type_synonym mutagen_file = "tags option option"

fun py_str :: "scalar \<Rightarrow> string" where
  "py_str (Str s) = s"
| "py_str (Frame b s) = s"

fun truthy_scalar :: "scalar \<Rightarrow> bool" where
  "truthy_scalar (Str s) = truthy_str s"
| "truthy_scalar (Frame b s) = b"

fun truthy_val :: "tagval option \<Rightarrow> bool" where
  "truthy_val None = False"
| "truthy_val (Some (One x)) = truthy_scalar x"
| "truthy_val (Some (Many xs)) = (xs \<noteq> [])"

definition truthy_tags :: "tags \<Rightarrow> bool" where
  \<comment> \<open>a dict-like object is true when it has a key\<close>
  "truthy_tags t =
     (tag_TIT2 t \<noteq> None \<or> tag_TPE1 t \<noteq> None \<or> tag_title t \<noteq> None \<or> tag_artist t \<noteq> None
      \<or> tag_others t)"

definition frame_val :: "(bool \<times> string) option \<Rightarrow> tagval option" where
  \<comment> \<open>\<open>tags.get("TIT2")\<close>\<close>
  "frame_val f = (case f of None \<Rightarrow> None | Some (b, s) \<Rightarrow> Some (One (Frame b s)))"

definition frame_str :: "(bool \<times> string) option \<Rightarrow> tagval option" where
  \<comment> \<open>lines 128-131: \<open>str(tags.get("TIT2"))\<close> when the key is there, None otherwise\<close>
  "frame_str f = (case f of None \<Rightarrow> None | Some (b, s) \<Rightarrow> Some (One (Str s)))"

definition py_or :: "tagval option \<Rightarrow> tagval option \<Rightarrow> tagval option" where
  "py_or a b = (if truthy_val a then a else b)"

fun first_of_list :: "tagval option \<Rightarrow> error + scalar option" where
  \<comment> \<open>lines 138-141: \<open>if isinstance(x, list): x = x[0]\<close>\<close>
  "first_of_list None = Inr None"
| "first_of_list (Some (One x)) = Inr (Some x)"
| "first_of_list (Some (Many [])) = Inl (OtherException ''IndexError'')"
| "first_of_list (Some (Many (x # _))) = Inr (Some x)"

definition tags_candidate :: "tags \<Rightarrow> error + (string \<times> string) option" where
  \<comment> \<open>lines 124-143, the body of the \<open>try\<close> once the tags are there\<close>
  "tags_candidate t =
     (let title0 = frame_str (tag_TIT2 t);
          artist0 = frame_str (tag_TPE1 t);
          title1 = (if \<not> truthy_val title0 then py_or (tag_title t) (frame_val (tag_TIT2 t))
                    else title0);
          artist1 = (if \<not> truthy_val artist0 then py_or (tag_artist t) (frame_val (tag_TPE1 t))
                     else artist0)
      in case first_of_list title1 of
           Inl e \<Rightarrow> Inl e
         | Inr title \<Rightarrow>
             (case first_of_list artist1 of
                Inl e \<Rightarrow> Inl e
              | Inr artist \<Rightarrow>
                  (case title of
                     None \<Rightarrow> Inr None
                   | Some tv \<Rightarrow>
                       if truthy_scalar tv
                       then Inr (Some (py_str tv,
                                       case artist of
                                         None \<Rightarrow> []
                                       | Some av \<Rightarrow> if truthy_scalar av then py_str av else []))
                       else Inr None)))"

definition read_tags ::
  "(string \<Rightarrow> error + mutagen_file) option \<Rightarrow> string \<Rightarrow> (string \<times> string) option" where
  "read_tags MutagenFile path =
     (case MutagenFile of
        None \<Rightarrow> None
      | Some mutagen \<Rightarrow>
          (case mutagen path of
             Inl e \<Rightarrow> None
           | Inr None \<Rightarrow> None
           | Inr (Some None) \<Rightarrow> None
           | Inr (Some (Some t)) \<Rightarrow>
               if \<not> truthy_tags t then None
               else (case tags_candidate t of Inl e \<Rightarrow> None | Inr r \<Rightarrow> r)))"

section \<open>The pipeline (process_file)\<close>

text \<open>
  What the outside world answers while one segment is processed: the two optional
  modules, the temporary file that \<open>tempfile.NamedTemporaryFile\<close> creates (its name) and
  the WAV bytes that \<open>seg.export\<close> writes, each of which may raise instead.
\<close>

record externals =
  acoustid :: "acoustid_module option"
  MutagenFile :: "(string \<Rightarrow> error + mutagen_file) option"
  NamedTemporaryFile :: "error + string"
  seg_export :: "audio \<Rightarrow> string \<Rightarrow> error + string"

text \<open>
  The state of a run: the files that exist (path to content), the list \<open>temp_files\<close> of
  the source, and the paths that were handed to \<open>read_tags\<close>, in call order.
\<close>

record state =
  files :: "string \<rightharpoonup> string"
  temp_files :: "string list"
  tag_reads :: "string list"

definition truthy_key :: "string option \<Rightarrow> bool" where
  "truthy_key k = (case k of None \<Rightarrow> False | Some s \<Rightarrow> truthy_str s)"

definition resolve ::
  "externals \<Rightarrow> string \<Rightarrow> string option \<Rightarrow> nat \<Rightarrow> string
     \<Rightarrow> (string \<times> string) option \<times> string list" where
  \<comment> \<open>lines 180-189; the second component lists the paths passed to \<open>read_tags\<close>\<close>
  "resolve w input_path acoustid_key i tf_name =
     (let meta = (if truthy_key acoustid_key
                  then fingerprint_and_lookup (acoustid w) tf_name acoustid_key
                  else None)
      in case meta of
           Some m \<Rightarrow> (Some m, [])
         | None \<Rightarrow>
             if i = 0 then (read_tags (MutagenFile w) input_path, [input_path])
             else (None, []))"

fun segment_loop ::
  "(nat \<Rightarrow> externals) \<Rightarrow> string \<Rightarrow> string option \<Rightarrow> nat \<Rightarrow> audio list \<Rightarrow> state
     \<Rightarrow> string list \<Rightarrow> state \<times> (error + string list)" where
  \<comment> \<open>lines 172-193: the \<open>for\<close> loop from index \<open>i\<close> on; \<open>Inl\<close> is an exception leaving it\<close>
  "segment_loop w input_path acoustid_key i [] st queries = (st, Inr queries)"
| "segment_loop w input_path acoustid_key i (seg # rest) st queries =
     (case NamedTemporaryFile (w i) of
        Inl e \<Rightarrow> (st, Inl e)
      | Inr tf_name \<Rightarrow>
          (let st1 = st\<lparr>files := (files st)(tf_name \<mapsto> []),
                        temp_files := temp_files st @ [tf_name]\<rparr>
           in case seg_export (w i) seg tf_name of
                Inl e \<Rightarrow> (st1, Inl e)
              | Inr wav \<Rightarrow>
                  (case resolve (w i) input_path acoustid_key i tf_name of
                     (meta, reads) \<Rightarrow>
                       segment_loop w input_path acoustid_key (i + 1) rest
                         (st1\<lparr>files := (files st1)(tf_name \<mapsto> wav),
                              tag_reads := tag_reads st1 @ reads\<rparr>)
                         (queries @ [make_query_from_metadata meta i]))))"

definition unlink :: "(string \<rightharpoonup> string) \<Rightarrow> string \<Rightarrow> error + (string \<rightharpoonup> string)" where
  \<comment> \<open>\<open>os.unlink(p)\<close>\<close>
  "unlink fs p =
     (if p \<in> dom fs then Inr (fs(p := None)) else Inl (OtherException ''FileNotFoundError''))"

fun cleanup :: "string list \<Rightarrow> (string \<rightharpoonup> string) \<Rightarrow> (string \<rightharpoonup> string)" where
  \<comment> \<open>lines 197-201: errors of a single unlink are passed over\<close>
  "cleanup [] fs = fs"
| "cleanup (p # ps) fs = cleanup ps (case unlink fs p of Inl e \<Rightarrow> fs | Inr fs' \<Rightarrow> fs')"

definition run_segments ::
  "(nat \<Rightarrow> externals) \<Rightarrow> string \<Rightarrow> string option \<Rightarrow> audio list \<Rightarrow> state
     \<Rightarrow> state \<times> (error + string list)" where
  \<comment> \<open>lines 169-201: the \<open>try\<close> with its \<open>finally\<close>\<close>
  "run_segments w input_path acoustid_key segments st =
     (case segment_loop w input_path acoustid_key 0 segments (st\<lparr>temp_files := []\<rparr>) [] of
        (st', r) \<Rightarrow> (st'\<lparr>files := cleanup (temp_files st') (files st')\<rparr>, r))"

text \<open>
  What does not depend on the segment: decoding the input (\<open>AudioSegment.from_file\<close>),
  pydub's silence detection, and whether the output file can be opened for writing.
\<close>

record loader =
  from_file :: "string \<Rightarrow> error + audio"
  detect_nonsilent :: "audio \<Rightarrow> int \<Rightarrow> int \<Rightarrow> (int \<times> int) list"
  open_w :: "string \<Rightarrow> error + unit"

definition process_file ::
  "loader \<Rightarrow> (nat \<Rightarrow> externals) \<Rightarrow> state \<Rightarrow> string \<Rightarrow> string \<Rightarrow> string option
     \<Rightarrow> int \<Rightarrow> int \<Rightarrow> int \<Rightarrow> state \<times> (error + string list)" where
  "process_file ld w st input_path output_path acoustid_key min_silence_len silence_thresh
       keep_silence =
     (case from_file ld input_path of
        Inl e \<Rightarrow> (st, Inl e)
      | Inr au \<Rightarrow>
          (let segments =
                 segments_of au (detect_nonsilent ld au min_silence_len silence_thresh)
                   keep_silence
           in case run_segments w input_path acoustid_key segments st of
                (st', Inl e) \<Rightarrow> (st', Inl e)
              | (st', Inr queries) \<Rightarrow>
                  (case open_w ld output_path of
                     Inl e \<Rightarrow> (st', Inl e)
                   | Inr u \<Rightarrow>
                       (st'\<lparr>files := (files st')(output_path \<mapsto>
                                         concat (map (\<lambda>q. q @ [CHR 0x0A]) queries))\<rparr>,
                        Inr queries))))"

section \<open>The downstream consumer (create_playlist.py, create_playlist_and_add_tracks)\<close>

text \<open>
  The Spotipy client is its three methods, each of which may raise. A playlist and a
  track are the dicts Spotify returns, with the keys the function reads.

  The function inspects the characters of a query, and a Python \<open>str\<close> is a sequence of
  Unicode code points: a query is the list of its code points, so that every whitespace
  character of Unicode can occur in it.
\<close>

type_synonym pystr = "nat list"

record playlist =
  playlist_id :: string
  playlist_url :: string

record track =
  track_uri :: string
  track_name :: string
  track_artists :: "string list"

record spotify =
  user_playlist_create :: "string \<Rightarrow> string \<Rightarrow> error + playlist"
  search :: "pystr \<Rightarrow> error + track list"
  playlist_add_items :: "string \<Rightarrow> string list \<Rightarrow> error + unit"

datatype call = CreateCall string string | SearchCall pystr | AddCall string "string list"

definition is_space :: "nat \<Rightarrow> bool" where
  \<comment> \<open>the code points that \<open>str.strip()\<close> removes, those for which \<open>str.isspace()\<close> holds:
      the ASCII ones, U+0085, U+00A0, U+1680, U+2000 to U+200A, U+2028, U+2029, U+202F,
      U+205F and U+3000\<close>
  "is_space c =
     (c \<in> {0x09, 0x0A, 0x0B, 0x0C, 0x0D, 0x1C, 0x1D, 0x1E, 0x1F, 0x20, 0x85, 0xA0, 0x1680,
            0x2000, 0x2001, 0x2002, 0x2003, 0x2004, 0x2005, 0x2006, 0x2007, 0x2008, 0x2009,
            0x200A, 0x2028, 0x2029, 0x202F, 0x205F, 0x3000})"

definition strip :: "pystr \<Rightarrow> pystr" where
  \<comment> \<open>\<open>q.strip()\<close>: leading and trailing whitespace removed\<close>
  "strip q = rev (dropWhile is_space (rev (dropWhile is_space q)))"

definition skipped :: "pystr \<Rightarrow> bool" where
  \<comment> \<open>line 60: \<open>not q or not q.strip()\<close>; a str is false when it is empty\<close>
  "skipped q = (q = [] \<or> strip q = [])"

fun search_loop ::
  "spotify \<Rightarrow> pystr list \<Rightarrow> string list \<Rightarrow> call list \<Rightarrow> call list \<times> (error + string list)"
  where
  \<comment> \<open>lines 57-76; \<open>calls\<close> is the sequence of client calls made so far\<close>
  "search_loop sp [] track_uris calls = (calls, Inr track_uris)"
| "search_loop sp (q # rest) track_uris calls =
     (if skipped q then search_loop sp rest track_uris calls
      else
        (case search sp q of
           Inr items \<Rightarrow>
             (case items of
                [] \<Rightarrow> search_loop sp rest track_uris (calls @ [SearchCall q])
              | t # _ \<Rightarrow>
                  search_loop sp rest (track_uris @ [track_uri t]) (calls @ [SearchCall q]))
         | Inl SpotifyException \<Rightarrow> search_loop sp rest track_uris (calls @ [SearchCall q])
         | Inl (OtherException m) \<Rightarrow> (calls @ [SearchCall q], Inl (OtherException m))))"

definition create_playlist_and_add_tracks ::
  "spotify \<Rightarrow> string \<Rightarrow> string \<Rightarrow> pystr list \<Rightarrow> call list \<times> (error + playlist)" where
  "create_playlist_and_add_tracks sp user_id playlist_name song_queries =
     (case user_playlist_create sp user_id playlist_name of
        Inl e \<Rightarrow> ([CreateCall user_id playlist_name], Inl e)
      | Inr pl \<Rightarrow>
          (case search_loop sp song_queries [] [CreateCall user_id playlist_name] of
             (calls, Inl e) \<Rightarrow> (calls, Inl e)
           | (calls, Inr track_uris) \<Rightarrow>
               if track_uris \<noteq> [] then
                 (case playlist_add_items sp (playlist_id pl) track_uris of
                    Inl e \<Rightarrow> (calls @ [AddCall (playlist_id pl) track_uris], Inl e)
                  | Inr u \<Rightarrow> (calls @ [AddCall (playlist_id pl) track_uris], Inr pl))
               else (calls, Inr pl)))"

section \<open>Notions used to state the properties\<close>

text \<open>
  The outcome of one pass through the loop body for segment \<open>i\<close>, seen alone: the
  exception of the temporary file or of the export, or the query of the segment.
\<close>

definition seg_outcome ::
  "externals \<Rightarrow> string \<Rightarrow> string option \<Rightarrow> nat \<Rightarrow> audio \<Rightarrow> error + string" where
  "seg_outcome w input_path acoustid_key i seg =
     (case NamedTemporaryFile w of
        Inl e \<Rightarrow> Inl e
      | Inr tf_name \<Rightarrow>
          (case seg_export w seg tf_name of
             Inl e \<Rightarrow> Inl e
           | Inr wav \<Rightarrow>
               Inr (make_query_from_metadata
                      (fst (resolve w input_path acoustid_key i tf_name)) i)))"

fun outcomes ::
  "(nat \<Rightarrow> externals) \<Rightarrow> string \<Rightarrow> string option \<Rightarrow> nat \<Rightarrow> audio list
     \<Rightarrow> (error + string) list" where
  "outcomes w input_path acoustid_key i [] = []"
| "outcomes w input_path acoustid_key i (seg # rest) =
     seg_outcome (w i) input_path acoustid_key i seg
       # outcomes w input_path acoustid_key (i + 1) rest"

fun collect :: "(error + 'a) list \<Rightarrow> error + 'a list" where
  \<comment> \<open>the first exception, or all the values in order\<close>
  "collect [] = Inr []"
| "collect (Inl e # _) = Inl e"
| "collect (Inr x # rest) = (case collect rest of Inl e \<Rightarrow> Inl e | Inr xs \<Rightarrow> Inr (x # xs))"

definition fingerprint_tier ::
  "externals \<Rightarrow> string option \<Rightarrow> string \<Rightarrow> (string \<times> string) option" where
  \<comment> \<open>what lines 181-183 of process_file leave in \<open>meta\<close>\<close>
  "fingerprint_tier w acoustid_key tf_name =
     (if truthy_key acoustid_key then fingerprint_and_lookup (acoustid w) tf_name acoustid_key
      else None)"

definition placeholder :: "nat \<Rightarrow> string" where
  "placeholder i = ''Unknown Track '' @ str_nat (i + 1)"




text \<open>
  A small world to run the pipeline in: the recognition service knows one song, no tag
  reader is installed, the temporary file of segment \<open>i\<close> is called \<open>seg\<close> followed by
  \<open>i\<close>, and every export succeeds.
\<close>

definition example_acoustid :: acoustid_module where
  "example_acoustid =
     \<lparr>fingerprint_file = (\<lambda>path. Inr (180, ''AQAA'')),
      lookup = (\<lambda>key fp duration.
        Inr (Bare [Candidate (Some [Recording (Some ''Imagine'')
                                       (Some [Artist (Some ''John Lennon'')])])]))\<rparr>"

definition example_world :: "nat \<Rightarrow> externals" where
  "example_world i =
     \<lparr>acoustid = Some example_acoustid, MutagenFile = None,
      NamedTemporaryFile = Inr (''seg'' @ str_nat i),
      seg_export = (\<lambda>seg path. Inr ''RIFF'')\<rparr>"

definition no_fingerprint :: externals where
  \<comment> \<open>the same world when \<open>fpcalc\<close> fails on the segment\<close>
  "no_fingerprint =
     \<lparr>acoustid = Some (example_acoustid\<lparr>fingerprint_file := \<lambda>path. Inl (OtherException ''fpcalc'')\<rparr>),
      MutagenFile = None,
      NamedTemporaryFile = Inr ''seg1'',
      seg_export = (\<lambda>seg path. Inr ''RIFF'')\<rparr>"

definition export_fails :: externals where
  \<comment> \<open>a world in which the export of the segment raises\<close>
  "export_fails =
     \<lparr>acoustid = None, MutagenFile = None, NamedTemporaryFile = Inr ''seg1'',
      seg_export = (\<lambda>seg path. Inl (OtherException ''disk full''))\<rparr>"


definition empty_state :: state where
  "empty_state = \<lparr>files = Map.empty, temp_files = [], tag_reads = []\<rparr>"

text \<open>
  For the consumer: the URIs of the top results of the queries that are searched and
  found, the search calls made, and a client whose search raises nothing but
  SpotifyException for a query. \<open>codes\<close> gives the code points of an ASCII literal.
\<close>

definition codes :: "string \<Rightarrow> pystr" where
  "codes s = map of_char s"

definition hits :: "spotify \<Rightarrow> pystr list \<Rightarrow> string list" where
  "hits sp qs =
     concat (map (\<lambda>q. if skipped q then []
                       else (case search sp q of Inr (t # _) \<Rightarrow> [track_uri t] | _ \<Rightarrow> [])) qs)"

definition searched :: "pystr list \<Rightarrow> call list" where
  "searched qs = map SearchCall (filter (\<lambda>q. \<not> skipped q) qs)"

definition no_other_error :: "spotify \<Rightarrow> pystr \<Rightarrow> bool" where
  "no_other_error sp q = (case search sp q of Inl (OtherException m) \<Rightarrow> False | _ \<Rightarrow> True)"

definition example_spotify :: spotify where
  "example_spotify =
     \<lparr>user_playlist_create = (\<lambda>user name. Inr \<lparr>playlist_id = ''p1'', playlist_url = ''u''\<rparr>),
      search = (\<lambda>q. if q = codes ''Imagine - John Lennon''
                      then Inr [\<lparr>track_uri = ''spotify:track:1'', track_name = ''Imagine'',
                                 track_artists = [''John Lennon'']\<rparr>]
                      else if q = codes ''Unknown Track 2'' then Inl SpotifyException
                      else Inr []),
      playlist_add_items = (\<lambda>pid uris. Inr ())\<rparr>"

section \<open>Segmentation: padding and the degenerate case\<close>

lemma py_slice_whole: "py_slice xs 0 (int (length xs)) = xs"
  by (simp add: py_slice_def Let_def)

lemma no_silence_one_segment:
  "0 \<le> k \<Longrightarrow> segments_of au [(0, int (length au))] k = [au]"
  by (simp add: segments_of_def split_on_silence_def padded_range_def py_slice_whole
        max_def min_def)

text \<open>
  C4. When silence detection returns no non-silent span, the segments of the run are the
  one segment that is the whole audio; whatever it returns, the run has at least one
  segment. When it returns the one span that covers the audio (there is no silence to
  split at) and the padding is not negative, the one segment is again the whole audio.
\<close>

theorem degenerate_segmentation:
  "segments_of au [] keep_silence = [au]
   \<and> length (segments_of au [] keep_silence) = 1
   \<and> segments_of au non_silent_ranges keep_silence \<noteq> []
   \<and> segments_of au [(0, int (length au))] (int k) = [au]"
  using no_silence_one_segment [of "int k" au]
  by (simp add: segments_of_def split_on_silence_def Let_def)

text \<open>
  C5. The range cut for a detected span \<open>(start, end)\<close> is
  \<open>[max 0 (start - keep_silence), min (len audio) (end + keep_silence))\<close>: its start is
  never negative, its end never beyond the length of the audio, a span starting at 50 with
  a padding of 300 starts at 0, and the segments are the slices at these ranges.
\<close>

theorem padding_clamp:
  "padded_range au keep_silence (start, end)
     = (max 0 (start - keep_silence), min (int (length au)) (end + keep_silence))
   \<and> 0 \<le> fst (padded_range au keep_silence (start, end))
   \<and> snd (padded_range au keep_silence (start, end)) \<le> int (length au)
   \<and> fst (padded_range au 300 (50, end)) = 0
   \<and> split_on_silence au non_silent_ranges keep_silence
       = map (\<lambda>(start, end). py_slice au (max 0 (start - keep_silence))
                                (min (int (length au)) (end + keep_silence)))
             non_silent_ranges"
  by (auto simp add: padded_range_def split_on_silence_def)

section \<open>Query formatting\<close>

lemma str_nat_3: "str_nat 3 = ''3''"
  by (simp add: str_nat.simps digit_of_def)

text \<open>
  C6. A candidate with a title gives \<open>title - artist\<close> when the artist is not empty and
  the title alone when it is; no candidate (None, or a candidate whose title is empty)
  gives \<open>Unknown Track\<close> with the index plus one, so index 2 gives \<open>Unknown Track 3\<close>.
\<close>

theorem query_formatting:
  "make_query_from_metadata (Some (title, artist)) i
     = (if title = [] then ''Unknown Track '' @ str_nat (i + 1)
        else if artist = [] then title
        else title @ '' - '' @ artist)
   \<and> make_query_from_metadata None i = ''Unknown Track '' @ str_nat (i + 1)
   \<and> make_query_from_metadata None 2 = ''Unknown Track 3''"
  by (simp add: make_query_from_metadata_def truthy_str_def str_nat_3)

section \<open>The fingerprint tier\<close>





section \<open>Resolution of one segment\<close>

lemma str_nat_nonempty: "str_nat n \<noteq> []"
  by (subst str_nat.simps) simp

lemma make_query_nonempty: "make_query_from_metadata meta i \<noteq> []"
  by (auto simp: make_query_from_metadata_def truthy_str_def str_nat_nonempty
        split: option.splits)

lemma resolve_None:
  "fingerprint_and_lookup (acoustid w) tf key = None
   \<Longrightarrow> i = 0 \<longrightarrow> read_tags (MutagenFile w) ip = None
   \<Longrightarrow> fst (resolve w ip key i tf) = None"
  by (auto simp: resolve_def Let_def split: option.splits)

text \<open>
  C1. Resolution is a total function into queries (no exception is among its results) and
  the query of a segment is never empty. When the fingerprint tier yields no candidate
  (also when it is not tried, the key being empty) and the tag tier (tried for segment 0
  only) yields none, the query is the placeholder of the segment. Every failure inside a tier ends in None: a missing module or key, an exception
  of \<open>fingerprint_file\<close> or of \<open>lookup\<close>, a response that cannot be iterated, an
  exception while the results are parsed, an exception of \<open>MutagenFile\<close>.
\<close>

theorem resolution_total:
  "make_query_from_metadata (fst (resolve w input_path key i tf_name)) i \<noteq> []
   \<and> (fingerprint_and_lookup (acoustid w) tf_name key = None
        \<and> (i = 0 \<longrightarrow> read_tags (MutagenFile w) input_path = None)
      \<longrightarrow> make_query_from_metadata (fst (resolve w input_path key i tf_name)) i
            = placeholder i)
   \<and> (fingerprint_tier w key tf_name = None
        \<and> (i = 0 \<longrightarrow> read_tags (MutagenFile w) input_path = None)
      \<longrightarrow> make_query_from_metadata (fst (resolve w input_path key i tf_name)) i
            = placeholder i)
   \<and> fingerprint_and_lookup None p key = None
   \<and> fingerprint_and_lookup (Some ac) p None = None
   \<and> fingerprint_and_lookup (Some (ac\<lparr>fingerprint_file := \<lambda>path. Inl e\<rparr>)) p key = None
   \<and> fingerprint_and_lookup (Some (ac\<lparr>lookup := \<lambda>k fp d. Inl e\<rparr>)) p key = None
   \<and> extract_candidate NotIterable = None
   \<and> (scan_candidates cs = Inl e'
        \<longrightarrow> extract_candidate (Bare cs) = None \<and> extract_candidate (Pair status cs) = None)
   \<and> read_tags None p = None
   \<and> read_tags (Some (\<lambda>path. Inl e)) p = None"
proof -
  have "fingerprint_tier w key tf_name = None
        \<and> (i = 0 \<longrightarrow> read_tags (MutagenFile w) input_path = None)
      \<longrightarrow> make_query_from_metadata (fst (resolve w input_path key i tf_name)) i
            = placeholder i"
    by (auto simp: resolve_def fingerprint_tier_def Let_def make_query_from_metadata_def
          placeholder_def split: option.splits)
  moreover
  have "fingerprint_and_lookup (acoustid w) tf_name key = None
        \<and> (i = 0 \<longrightarrow> read_tags (MutagenFile w) input_path = None)
      \<longrightarrow> make_query_from_metadata (fst (resolve w input_path key i tf_name)) i
            = placeholder i"
    using resolve_None [of w tf_name key i input_path]
    by (auto simp: make_query_from_metadata_def placeholder_def)
  moreover have "fingerprint_and_lookup None p key = None"
    "fingerprint_and_lookup (Some ac) p None = None"
    "fingerprint_and_lookup (Some (ac\<lparr>fingerprint_file := \<lambda>path. Inl e\<rparr>)) p key = None"
    "fingerprint_and_lookup (Some (ac\<lparr>lookup := \<lambda>k fp d. Inl e\<rparr>)) p key = None"
    by (auto simp: fingerprint_and_lookup_def split: option.splits sum.splits)
  moreover have "extract_candidate NotIterable = None"
    "scan_candidates cs = Inl e'
        \<longrightarrow> extract_candidate (Bare cs) = None \<and> extract_candidate (Pair status cs) = None"
    by (auto simp: extract_candidate_def)
  moreover have "read_tags None p = None" "read_tags (Some (\<lambda>path. Inl e)) p = None"
    by (auto simp: read_tags_def)
  ultimately show ?thesis using make_query_nonempty by blast
qed

theorem resolution_total_witness:
  "fingerprint_and_lookup None ''seg0.wav'' (Some ''key'') = None
   \<and> fingerprint_tier \<lparr>acoustid = None, MutagenFile = None,
                        NamedTemporaryFile = Inr ''seg0.wav'', seg_export = \<lambda>seg p. Inr []\<rparr>
         (Some ''key'') ''seg0.wav'' = None
   \<and> read_tags None ''radio.mp3'' = None
   \<and> scan_candidates [CandidateNotDict] = Inl (OtherException ''AttributeError'')
   \<and> make_query_from_metadata
        (fst (resolve \<lparr>acoustid = None, MutagenFile = None,
                       NamedTemporaryFile = Inr ''seg0.wav'', seg_export = \<lambda>seg p. Inr []\<rparr>
                ''radio.mp3'' (Some ''key'') 0 ''seg0.wav'')) 0 = ''Unknown Track 1''
   \<and> extract_candidate (Bare [CandidateNotDict]) = None"
  using resolution_total
    [where w = "\<lparr>acoustid = None, MutagenFile = None,
                 NamedTemporaryFile = Inr ''seg0.wav'', seg_export = \<lambda>seg p. Inr []\<rparr>"
       and input_path = "''radio.mp3''" and key = "Some ''key''" and i = 0
       and tf_name = "''seg0.wav''" and cs = "[CandidateNotDict]"
       and e' = "OtherException ''AttributeError''"]
  by (simp add: fingerprint_and_lookup_def fingerprint_tier_def read_tags_def placeholder_def
        str_nat.simps digit_of_def)

section \<open>The loop over the segments\<close>

lemma segment_loop_result:
  "snd (segment_loop w ip key i segs st qs) =
     (case collect (outcomes w ip key i segs) of Inl e \<Rightarrow> Inl e | Inr r \<Rightarrow> Inr (qs @ r))"
proof (induction segs arbitrary: i st qs)
  case Nil
  show ?case by simp
next
  case (Cons seg rest)
  show ?case
    by (simp add: seg_outcome_def Cons.IH Let_def split: sum.splits prod.splits)
qed

lemma run_segments_result:
  "snd (run_segments w ip key segs st) = collect (outcomes w ip key 0 segs)"
proof (cases "segment_loop w ip key 0 segs (st\<lparr>temp_files := []\<rparr>) []")
  case (Pair st' r)
  with segment_loop_result [of w ip key 0 segs "st\<lparr>temp_files := []\<rparr>" "[]"]
  show ?thesis
    by (cases "collect (outcomes w ip key 0 segs)") (simp_all add: run_segments_def)
qed

lemma collect_map_Inr: "collect (map Inr ys) = Inr ys"
  by (induction ys) auto


lemma length_outcomes: "length (outcomes w ip key i segs) = length segs"
  by (induction segs arbitrary: i) auto

lemma nth_outcomes:
  "j < length segs \<Longrightarrow>
     outcomes w ip key i segs ! j = seg_outcome (w (i + j)) ip key (i + j) (segs ! j)"
proof (induction segs arbitrary: i j)
  case Nil
  then show ?case by simp
next
  case (Cons seg rest)
  then show ?case by (cases j) auto
qed

section \<open>Failure isolation\<close>

lemma collect_update:
  "collect (xs[k := map_sum id (\<lambda>q. v) (xs ! k)]) = map_sum id (\<lambda>qs. qs[k := v]) (collect xs)"
proof (induction xs arbitrary: k)
  case Nil
  show ?case by simp
next
  case (Cons x xs)
  show ?case
  proof (cases k)
    case 0
    then show ?thesis by (cases x) (auto split: sum.splits)
  next
    case (Suc k')
    with Cons.IH [of k'] show ?thesis by (cases x) (auto split: sum.splits)
  qed
qed

lemma collect_Inr_all:
  "(\<And>j. j < length xs \<Longrightarrow> \<exists>q. xs ! j = Inr q)
   \<Longrightarrow> \<exists>qs. collect xs = Inr qs \<and> length qs = length xs"
proof (induction xs)
  case Nil
  show ?case by simp
next
  case (Cons x xs)
  from Cons.prems [of 0] obtain q where q: "x = Inr q" by auto
  have "\<exists>qs. collect xs = Inr qs \<and> length qs = length xs"
  proof (rule Cons.IH)
    fix j assume "j < length xs"
    then show "\<exists>q. xs ! j = Inr q" using Cons.prems [of "Suc j"] by simp
  qed
  with q show ?case by auto
qed

lemma seg_outcome_failed:
  assumes "NamedTemporaryFile x = NamedTemporaryFile w"
    and "seg_export x = seg_export w"
    and "\<forall>p. fingerprint_and_lookup (acoustid x) p key = None"
    and "k = 0 \<longrightarrow> read_tags (MutagenFile x) ip = None"
  shows "seg_outcome x ip key k seg = map_sum id (\<lambda>q. placeholder k) (seg_outcome w ip key k seg)"
proof -
  have "fst (resolve x ip key k p) = None" for p
    using assms(3,4) by (intro resolve_None) auto
  then show ?thesis using assms(1,2)
    by (simp add: seg_outcome_def make_query_from_metadata_def placeholder_def
          split: sum.splits)
qed

lemma outcomes_failed:
  assumes "NamedTemporaryFile x = NamedTemporaryFile (w k)"
    and "seg_export x = seg_export (w k)"
    and "\<forall>p. fingerprint_and_lookup (acoustid x) p key = None"
    and "k = 0 \<longrightarrow> read_tags (MutagenFile x) ip = None"
  shows "outcomes (w(k := x)) ip key 0 segs
           = (outcomes w ip key 0 segs)
               [k := map_sum id (\<lambda>q. placeholder k) (outcomes w ip key 0 segs ! k)]"
proof (rule nth_equalityI)
  show "length (outcomes (w(k := x)) ip key 0 segs) = length ((outcomes w ip key 0 segs)
               [k := map_sum id (\<lambda>q. placeholder k) (outcomes w ip key 0 segs ! k)])"
    by (simp add: length_outcomes)
next
  fix j assume "j < length (outcomes (w(k := x)) ip key 0 segs)"
  then have j: "j < length segs" by (simp add: length_outcomes)
  show "outcomes (w(k := x)) ip key 0 segs ! j = (outcomes w ip key 0 segs)
               [k := map_sum id (\<lambda>q. placeholder k) (outcomes w ip key 0 segs ! k)] ! j"
  proof (cases "j = k")
    case True
    with j seg_outcome_failed [where w = "w k" and x = x and k = k, OF assms, of "segs ! k"]
    show ?thesis
      by (simp add: nth_outcomes length_outcomes)
  next
    case False
    with j show ?thesis by (simp add: nth_outcomes length_outcomes)
  qed
qed

lemma seg_outcome_ok:
  "NamedTemporaryFile w = Inr name \<Longrightarrow> seg_export w seg name = Inr wav
   \<Longrightarrow> \<exists>q. seg_outcome w ip key i seg = Inr q"
  by (simp add: seg_outcome_def)

text \<open>
  C2. Take any run and replace the world of segment \<open>k\<close> by one in which the
  fingerprint tier fails for every path and (for segment 0) the tag tier fails too, the
  temporary file and the export staying as they were. The new run ends as the old one did,
  with the query of segment \<open>k\<close> replaced by its placeholder and every other query
  unchanged: the failure adds no exception to the loop. When every temporary file and every
  export succeeds the loop returns one query per segment, so resolving a segment never
  makes the run fail.
\<close>

theorem failure_isolation:
  assumes "NamedTemporaryFile x = NamedTemporaryFile (w k)"
    and "seg_export x = seg_export (w k)"
    and "\<forall>p. fingerprint_and_lookup (acoustid x) p key = None"
    and "k = 0 \<longrightarrow> read_tags (MutagenFile x) ip = None"
  shows "snd (run_segments (w(k := x)) ip key segs st')
           = map_sum id (\<lambda>qs. qs[k := placeholder k]) (snd (run_segments w ip key segs st))
         \<and> ((\<forall>j<length segs. \<exists>name wav. NamedTemporaryFile (w j) = Inr name
                  \<and> seg_export (w j) (segs ! j) name = Inr wav)
            \<longrightarrow> (\<exists>qs. snd (run_segments w ip key segs st) = Inr qs
                      \<and> length qs = length segs
                      \<and> snd (run_segments (w(k := x)) ip key segs st')
                          = Inr (qs[k := placeholder k])))"
proof -
  have eq: "snd (run_segments (w(k := x)) ip key segs st')
           = map_sum id (\<lambda>qs. qs[k := placeholder k]) (snd (run_segments w ip key segs st))"
    by (simp add: run_segments_result outcomes_failed [where w = w and k = k and x = x, OF assms]
          collect_update)
  have "\<exists>qs. snd (run_segments w ip key segs st) = Inr qs
                      \<and> length qs = length segs
                      \<and> snd (run_segments (w(k := x)) ip key segs st')
                          = Inr (qs[k := placeholder k])"
    if ok: "\<forall>j<length segs. \<exists>name wav. NamedTemporaryFile (w j) = Inr name
                  \<and> seg_export (w j) (segs ! j) name = Inr wav"
  proof -
    have "\<exists>qs. collect (outcomes w ip key 0 segs) = Inr qs
              \<and> length qs = length (outcomes w ip key 0 segs)"
    proof (rule collect_Inr_all)
      fix j assume "j < length (outcomes w ip key 0 segs)"
      then have j: "j < length segs" by (simp add: length_outcomes)
      with ok obtain name wav where "NamedTemporaryFile (w j) = Inr name"
        "seg_export (w j) (segs ! j) name = Inr wav" by blast
      from seg_outcome_ok [OF this] j show "\<exists>q. outcomes w ip key 0 segs ! j = Inr q"
        by (simp add: nth_outcomes)
    qed
    then obtain qs where "snd (run_segments w ip key segs st) = Inr qs" "length qs = length segs"
      by (auto simp: run_segments_result length_outcomes)
    with eq show ?thesis by simp
  qed
  with eq show ?thesis by blast
qed

lemma str_nat_1: "str_nat 1 = ''1''" "str_nat (Suc 0) = ''1''"
  by (simp_all add: str_nat.simps digit_of_def)
lemma str_nat_2: "str_nat 2 = ''2''" "str_nat (Suc (Suc 0)) = ''2''"
  by (simp_all add: str_nat.simps digit_of_def)

lemma example_query:
  "fst (resolve (example_world i) ip (Some ''key'') i p) = Some (''Imagine'', ''John Lennon'')"
  by (simp add: resolve_def example_world_def example_acoustid_def truthy_key_def truthy_str_def
      fingerprint_and_lookup_def extract_candidate_def or_empty_def or_empty_str_def truthy_opt_def)

lemma example_tmp:
  "NamedTemporaryFile (example_world i) = Inr (''seg'' @ str_nat i)"
  "seg_export (example_world i) seg p = Inr ''RIFF''"
  by (simp_all add: example_world_def)

lemma example_outcome:
  "seg_outcome (example_world i) ip (Some ''key'') i seg = Inr ''Imagine - John Lennon''"
  by (simp add: seg_outcome_def example_query example_tmp make_query_from_metadata_def
        truthy_str_def)

lemma no_fingerprint_fails:
  "fingerprint_and_lookup (acoustid no_fingerprint) p key = None"
  by (simp add: no_fingerprint_def fingerprint_and_lookup_def split: option.splits)

theorem failure_isolation_witness:
  "snd (run_segments (example_world(1 := no_fingerprint)) ''radio.mp3'' (Some ''key'')
          [[0], [0], [0]] empty_state)
     = Inr [''Imagine - John Lennon'', ''Unknown Track 2'', ''Imagine - John Lennon'']
   \<and> snd (run_segments example_world ''radio.mp3'' (Some ''key'') [[0], [0], [0]] empty_state)
     = Inr [''Imagine - John Lennon'', ''Imagine - John Lennon'', ''Imagine - John Lennon'']"
proof -
  have h1: "NamedTemporaryFile no_fingerprint = NamedTemporaryFile (example_world 1)"
    by (simp add: no_fingerprint_def example_world_def str_nat_1)
  have h2: "seg_export no_fingerprint = seg_export (example_world 1)"
    by (simp add: no_fingerprint_def example_world_def)
  have h3: "\<forall>p. fingerprint_and_lookup (acoustid no_fingerprint) p (Some ''key'') = None"
    by (simp add: no_fingerprint_fails)
  have h4: "(1::nat) = 0 \<longrightarrow> read_tags (MutagenFile no_fingerprint) ''radio.mp3'' = None"
    by simp
  have run: "snd (run_segments example_world ''radio.mp3'' (Some ''key'') [[0], [0], [0]] empty_state)
     = Inr [''Imagine - John Lennon'', ''Imagine - John Lennon'', ''Imagine - John Lennon'']"
    by (simp add: run_segments_result example_outcome)
  from failure_isolation [where w = example_world and k = 1 and x = no_fingerprint
      and segs = "[[0], [0], [0]]" and st = empty_state and st' = empty_state, OF h1 h2 h3 h4] run
  show ?thesis by (simp add: placeholder_def str_nat_2)
qed

section \<open>Order of the queries\<close>











section \<open>Cleanup of the exported segments\<close>

lemma dom_cleanup: "dom (cleanup ps fs) = dom fs - set ps"
proof (induction ps arbitrary: fs)
  case Nil
  show ?case by simp
next
  case (Cons p ps)
  have "dom (case unlink fs p of Inl e \<Rightarrow> fs | Inr fs' \<Rightarrow> fs') = dom fs - {p}"
    by (auto simp: unlink_def)
  then show ?case by (simp add: Cons.IH) blast
qed

lemma segment_loop_files:
  "dom (files (fst (segment_loop w ip key i segs st qs)))
     \<subseteq> dom (files st) \<union> set (temp_files (fst (segment_loop w ip key i segs st qs)))
   \<and> set (temp_files st) \<subseteq> set (temp_files (fst (segment_loop w ip key i segs st qs)))"
proof (induction segs arbitrary: i st qs)
  case Nil
  show ?case by simp
next
  case (Cons seg rest)
  show ?case
  proof (cases "NamedTemporaryFile (w i)")
    case (Inl e)
    then show ?thesis by simp
  next
    case name: (Inr name)
    let ?st1 = "st\<lparr>files := (files st)(name \<mapsto> []), temp_files := temp_files st @ [name]\<rparr>"
    show ?thesis
    proof (cases "seg_export (w i) seg name")
      case (Inl e)
      with name show ?thesis by auto
    next
      case (Inr wav)
      obtain meta reads where r: "resolve (w i) ip key i name = (meta, reads)"
        by (cases "resolve (w i) ip key i name")
      let ?st2 = "?st1\<lparr>files := (files ?st1)(name \<mapsto> wav),
                        tag_reads := tag_reads ?st1 @ reads\<rparr>"
      let ?S = "fst (segment_loop w ip key (i + 1) rest ?st2
                       (qs @ [make_query_from_metadata meta i]))"
      have step: "fst (segment_loop w ip key i (seg # rest) st qs) = ?S"
        using name Inr r by (simp add: Let_def)
      have ih: "dom (files ?S) \<subseteq> dom (files ?st2) \<union> set (temp_files ?S)"
        "set (temp_files ?st2) \<subseteq> set (temp_files ?S)"
        using Cons.IH [of "i + 1" ?st2 "qs @ [make_query_from_metadata meta i]"] by blast+
      have d: "dom (files ?st2) = insert name (dom (files st))" by auto
      have t: "set (temp_files ?st2) = insert name (set (temp_files st))" by simp
      from ih d t have "dom (files ?S) \<subseteq> dom (files st) \<union> set (temp_files ?S)"
        "set (temp_files st) \<subseteq> set (temp_files ?S)" by blast+
      then show ?thesis unfolding step by blast
    qed
  qed
qed

text \<open>
  C9. After the \<open>try\<close>/\<open>finally\<close> of a run, however the loop ended (a query list or
  an exception), none of the paths in \<open>temp_files\<close> exists, and no file exists that did
  not exist before the run: every temporary file the loop created is gone. At the end of
  \<open>process_file\<close> the only file that may have been added is the output file.
\<close>

theorem segment_cleanup:
  "dom (files (fst (run_segments w ip key segs st)))
     \<inter> set (temp_files (fst (run_segments w ip key segs st))) = {}
   \<and> dom (files (fst (run_segments w ip key segs st))) \<subseteq> dom (files st)
   \<and> dom (files (fst (process_file ld w st ip op key msl thr ks)))
       \<subseteq> insert op (dom (files st))"
proof -
  have run: "dom (files (fst (run_segments w ip key segs st)))
     \<inter> set (temp_files (fst (run_segments w ip key segs st))) = {}
   \<and> dom (files (fst (run_segments w ip key segs st))) \<subseteq> dom (files st)" for segs
  proof -
    obtain st' r where l: "segment_loop w ip key 0 segs (st\<lparr>temp_files := []\<rparr>) [] = (st', r)"
      by (cases "segment_loop w ip key 0 segs (st\<lparr>temp_files := []\<rparr>) []")
    from segment_loop_files [of w ip key 0 segs "st\<lparr>temp_files := []\<rparr>" "[]"] l
    have "dom (files st') \<subseteq> dom (files st) \<union> set (temp_files st')" by simp
    then show ?thesis using l by (auto simp: run_segments_def dom_cleanup)
  qed
  have "dom (files (fst (process_file ld w st ip op key msl thr ks)))
       \<subseteq> insert op (dom (files st))"
  proof (cases "from_file ld ip")
    case (Inl e)
    then show ?thesis by (auto simp: process_file_def)
  next
    case (Inr au)
    let ?segs = "segments_of au (detect_nonsilent ld au msl thr) ks"
    obtain st' r where rs: "run_segments w ip key ?segs st = (st', r)"
      by (cases "run_segments w ip key ?segs st")
    from run [of ?segs] rs have "dom (files st') \<subseteq> dom (files st)" by simp
    then show ?thesis using Inr rs
      by (cases r; cases "open_w ld op") (auto simp: process_file_def Let_def)
  qed
  with run show ?thesis by blast
qed

lemma export_fails_outcome:
  "seg_outcome export_fails ip key i seg = Inl (OtherException ''disk full'')"
  by (simp add: seg_outcome_def export_fails_def)

theorem segment_cleanup_witness:
  "snd (run_segments (example_world(1 := export_fails)) ''radio.mp3'' (Some ''key'')
          [[0], [0]] empty_state) = Inl (OtherException ''disk full'')
   \<and> temp_files (fst (run_segments (example_world(1 := export_fails)) ''radio.mp3''
          (Some ''key'') [[0], [0]] empty_state)) = [''seg0'', ''seg1'']
   \<and> dom (files (fst (run_segments (example_world(1 := export_fails)) ''radio.mp3''
          (Some ''key'') [[0], [0]] empty_state))) = {}"
proof -
  have "snd (run_segments (example_world(1 := export_fails)) ''radio.mp3'' (Some ''key'')
          [[0], [0]] empty_state) = Inl (OtherException ''disk full'')"
    by (simp add: run_segments_result example_outcome export_fails_outcome)
  moreover have "temp_files (fst (run_segments (example_world(1 := export_fails)) ''radio.mp3''
          (Some ''key'') [[0], [0]] empty_state)) = [''seg0'', ''seg1'']"
    by (simp add: run_segments_def example_tmp export_fails_def str_nat.simps digit_of_def
          split: prod.splits)
  moreover have "dom (files (fst (run_segments (example_world(1 := export_fails)) ''radio.mp3''
          (Some ''key'') [[0], [0]] empty_state))) = {}"
    using segment_cleanup [of "example_world(1 := export_fails)" "''radio.mp3''" "Some ''key''"
        "[[0], [0]]" empty_state]
    by (simp add: empty_state_def)
  ultimately show ?thesis by simp
qed

section \<open>The tag tier\<close>

lemma resolve_reads:
  "snd (resolve w ip key i tf) = (if fingerprint_tier w key tf = None \<and> i = 0 then [ip] else [])"
  by (auto simp: resolve_def fingerprint_tier_def Let_def split: option.splits)

lemma resolve_meta:
  "fst (resolve w ip key i tf) =
     (case fingerprint_tier w key tf of
        Some m \<Rightarrow> Some m
      | None \<Rightarrow> if i = 0 then read_tags (MutagenFile w) ip else None)"
  by (auto simp: resolve_def fingerprint_tier_def Let_def split: option.splits)

lemma segment_loop_reads:
  "\<exists>r. tag_reads (fst (segment_loop w ip key i segs st qs)) = tag_reads st @ r
       \<and> (r = [] \<or> i = 0 \<and> r = [ip])"
proof (induction segs arbitrary: i st qs)
  case Nil
  show ?case by simp
next
  case (Cons seg rest)
  show ?case
  proof (cases "NamedTemporaryFile (w i)")
    case (Inl e)
    then show ?thesis by simp
  next
    case name: (Inr name)
    let ?st1 = "st\<lparr>files := (files st)(name \<mapsto> []), temp_files := temp_files st @ [name]\<rparr>"
    show ?thesis
    proof (cases "seg_export (w i) seg name")
      case (Inl e)
      with name show ?thesis by simp
    next
      case (Inr wav)
      obtain meta reads where r: "resolve (w i) ip key i name = (meta, reads)"
        by (cases "resolve (w i) ip key i name")
      let ?st2 = "?st1\<lparr>files := (files ?st1)(name \<mapsto> wav),
                        tag_reads := tag_reads ?st1 @ reads\<rparr>"
      let ?S = "fst (segment_loop w ip key (i + 1) rest ?st2
                       (qs @ [make_query_from_metadata meta i]))"
      have step: "fst (segment_loop w ip key i (seg # rest) st qs) = ?S"
        using name Inr r by (simp add: Let_def)
      from Cons.IH [of "i + 1" ?st2 "qs @ [make_query_from_metadata meta i]"]
      have "tag_reads ?S = tag_reads ?st2" by auto
      moreover have "reads = [] \<or> i = 0 \<and> reads = [ip]"
        using resolve_reads [of "w i" ip key i name] r by (auto split: if_splits)
      ultimately show ?thesis unfolding step by auto
    qed
  qed
qed

text \<open>
  C8. \<open>read_tags\<close> is called for a segment exactly when the fingerprint tier left no
  candidate and the segment has index 0, and then with the path of the input file; over a
  whole run it is called at most once, with that path. \<open>read_tags\<close> asks
  \<open>MutagenFile\<close> about no other path than the one it is given. A title and an artist
  stored as lists are replaced by their first elements. A missing tag reader, an exception
  of it, an unknown file, a file without tags or without a title give no candidate; a
  title without an artist gives the title alone.
\<close>

theorem tag_tier_policy:
  "snd (resolve w ip key i tf) = (if fingerprint_tier w key tf = None \<and> i = 0 then [ip] else [])
   \<and> fst (resolve w ip key i tf) =
       (case fingerprint_tier w key tf of
          Some m \<Rightarrow> Some m
        | None \<Rightarrow> if i = 0 then read_tags (MutagenFile w) ip else None)
   \<and> (\<exists>r. tag_reads (fst (run_segments ws ip key segs st)) = tag_reads st @ r
          \<and> (r = [] \<or> r = [ip]))
   \<and> read_tags (Some m) p = read_tags (Some (\<lambda>q. m p)) p
   \<and> tags_candidate \<lparr>tag_TIT2 = None, tag_TPE1 = None,
                      tag_title = Some (Many (Str t # ts)),
                      tag_artist = Some (Many (Str a # as)), tag_others = b\<rparr>
       = Inr (if t = [] then None else Some (t, a))
   \<and> read_tags None p = None
   \<and> read_tags (Some (\<lambda>q. Inl e)) p = None
   \<and> read_tags (Some (\<lambda>q. Inr None)) p = None
   \<and> read_tags (Some (\<lambda>q. Inr (Some None))) p = None
   \<and> read_tags (Some (\<lambda>q. Inr (Some (Some (tg\<lparr>tag_TIT2 := None, tag_title := None\<rparr>))))) p
       = None
   \<and> read_tags (Some (\<lambda>q. Inr (Some (Some
         \<lparr>tag_TIT2 = None, tag_TPE1 = None, tag_title = Some (One (Str ''Hey Jude'')),
          tag_artist = None, tag_others = False\<rparr>)))) p = Some (''Hey Jude'', [])"
proof -
  have reads: "\<exists>r. tag_reads (fst (run_segments ws ip key segs st)) = tag_reads st @ r
          \<and> (r = [] \<or> r = [ip])"
  proof -
    obtain st' r where l: "segment_loop ws ip key 0 segs (st\<lparr>temp_files := []\<rparr>) [] = (st', r)"
      by (cases "segment_loop ws ip key 0 segs (st\<lparr>temp_files := []\<rparr>) []")
    from segment_loop_reads [of ws ip key 0 segs "st\<lparr>temp_files := []\<rparr>" "[]"] l
    show ?thesis by (auto simp: run_segments_def)
  qed
  have norm: "tags_candidate \<lparr>tag_TIT2 = None, tag_TPE1 = None,
                      tag_title = Some (Many (Str t # ts)),
                      tag_artist = Some (Many (Str a # as)), tag_others = b\<rparr>
       = Inr (if t = [] then None else Some (t, a))"
    by (simp add: tags_candidate_def frame_str_def frame_val_def py_or_def truthy_str_def)
  have none: "read_tags None p = None"
    "read_tags (Some (\<lambda>q. Inl e)) p = None"
    "read_tags (Some (\<lambda>q. Inr None)) p = None"
    "read_tags (Some (\<lambda>q. Inr (Some None))) p = None"
    by (simp_all add: read_tags_def)
  have notitle:
    "read_tags (Some (\<lambda>q. Inr (Some (Some (tg\<lparr>tag_TIT2 := None, tag_title := None\<rparr>))))) p
       = None"
    by (auto simp: read_tags_def tags_candidate_def frame_str_def frame_val_def py_or_def Let_def
          split: sum.splits option.splits)
  have jude: "read_tags (Some (\<lambda>q. Inr (Some (Some
         \<lparr>tag_TIT2 = None, tag_TPE1 = None, tag_title = Some (One (Str ''Hey Jude'')),
          tag_artist = None, tag_others = False\<rparr>)))) p = Some (''Hey Jude'', [])"
    by (simp add: read_tags_def truthy_tags_def tags_candidate_def frame_str_def frame_val_def
          py_or_def truthy_str_def)
  have path: "read_tags (Some m) p = read_tags (Some (\<lambda>q. m p)) p"
    by (simp add: read_tags_def)
  from resolve_reads resolve_meta reads norm none notitle jude path show ?thesis by blast
qed

section \<open>The downstream consumer\<close>

lemma search_loop_ok:
  "list_all (\<lambda>q. skipped q \<or> no_other_error sp q) qs \<Longrightarrow>
     search_loop sp qs uris calls = (calls @ searched qs, Inr (uris @ hits sp qs))"
proof (induction qs arbitrary: uris calls)
  case Nil
  show ?case by (simp add: hits_def searched_def)
next
  case (Cons q qs)
  then have rest: "list_all (\<lambda>q. skipped q \<or> no_other_error sp q) qs" by simp
  show ?case
  proof (cases "skipped q")
    case True
    with Cons.IH [OF rest] show ?thesis by (simp add: hits_def searched_def)
  next
    case False
    with Cons.prems have "no_other_error sp q" by simp
    with False Cons.IH [OF rest] show ?thesis
      by (auto simp: hits_def searched_def no_other_error_def
            split: sum.splits list.splits error.splits)
  qed
qed

lemma search_loop_calls:
  "\<exists>cs. fst (search_loop sp qs uris calls) = calls @ cs"
proof (induction qs arbitrary: uris calls)
  case Nil
  show ?case by simp
next
  case (Cons q qs)
  show ?case
  proof (cases "skipped q")
    case True
    with Cons.IH show ?thesis by simp
  next
    case False
    from Cons.IH [of uris "calls @ [SearchCall q]"]
    obtain c1 where c1: "fst (search_loop sp qs uris (calls @ [SearchCall q]))
        = (calls @ [SearchCall q]) @ c1" by blast
    have c2: "\<exists>c2. fst (search_loop sp qs (uris @ [u]) (calls @ [SearchCall q]))
        = (calls @ [SearchCall q]) @ c2" for u
      using Cons.IH [of "uris @ [u]" "calls @ [SearchCall q]"] .
    show ?thesis
    proof (cases "search sp q")
      case (Inl e)
      with False c1 show ?thesis by (cases e) auto
    next
      case (Inr items)
      show ?thesis
      proof (cases items)
        case Nil
        with False Inr c1 show ?thesis by auto
      next
        case (Cons t ts)
        with False Inr c2 [of "track_uri t"] show ?thesis by auto
      qed
    qed
  qed
qed

lemma skipped_iff: "skipped q = list_all is_space q"
proof -
  have "strip q = [] \<longleftrightarrow> (\<forall>c\<in>set q. is_space c)"
  proof
    assume "strip q = []"
    then have "\<forall>x\<in>set (dropWhile is_space q). is_space x"
      by (simp add: strip_def dropWhile_eq_Nil_conv)
    then have "dropWhile is_space q = []"
      using hd_dropWhile [of is_space q] by (cases "dropWhile is_space q") auto
    then show "\<forall>c\<in>set q. is_space c" by (simp add: dropWhile_eq_Nil_conv)
  next
    assume "\<forall>c\<in>set q. is_space c"
    then have "dropWhile is_space q = []" by (simp add: dropWhile_eq_Nil_conv)
    then show "strip q = []" by (simp only: strip_def rev.simps dropWhile.simps)
  qed
  then show ?thesis
    by (cases q) (auto simp: skipped_def list_all_iff dest: set_dropWhileD)
qed

lemma codes_eq_iff: "codes a = codes b \<longleftrightarrow> a = b"
  by (simp add: codes_def inj_map_eq_map inj_on_def)

text \<open>
  C10. Every run starts with the call that creates the playlist, before any search. A
  query is skipped exactly when it consists of whitespace only (the empty query included),
  where whitespace is every code point that \<open>str.strip()\<close> removes, ASCII or not.
  When the playlist was created, no search raises anything but SpotifyException, and the
  final \<open>playlist_add_items\<close> (made only when a track was found) returns, the function
  returns the created playlist, having searched each query that is not skipped, in order,
  and added the top results of those that were found: a query whose search raises
  SpotifyException or finds nothing is passed over alone.
\<close>

theorem consumer_robustness:
  assumes "user_playlist_create sp user_id name = Inr pl"
    and "list_all (\<lambda>q. skipped q \<or> no_other_error sp q) qs"
    and "hits sp qs \<noteq> [] \<longrightarrow> playlist_add_items sp (playlist_id pl) (hits sp qs) = Inr ()"
  shows "create_playlist_and_add_tracks sp user_id name qs
           = (CreateCall user_id name # searched qs
                @ (if hits sp qs = [] then [] else [AddCall (playlist_id pl) (hits sp qs)]),
              Inr pl)
         \<and> (\<exists>rest. fst (create_playlist_and_add_tracks sp' user_id name qs')
                      = CreateCall user_id name # rest)
         \<and> skipped q = list_all is_space q"
proof -
  have main: "create_playlist_and_add_tracks sp user_id name qs
           = (CreateCall user_id name # searched qs
                @ (if hits sp qs = [] then [] else [AddCall (playlist_id pl) (hits sp qs)]),
              Inr pl)"
    using assms(1,3) search_loop_ok [OF assms(2), of "[]" "[CreateCall user_id name]"]
    by (auto simp: create_playlist_and_add_tracks_def)
  have first: "\<exists>rest. fst (create_playlist_and_add_tracks sp' user_id name qs')
                      = CreateCall user_id name # rest"
  proof (cases "user_playlist_create sp' user_id name")
    case (Inl e)
    then show ?thesis by (simp add: create_playlist_and_add_tracks_def)
  next
    case (Inr pl')
    obtain calls r where l: "search_loop sp' qs' [] [CreateCall user_id name] = (calls, r)"
      by (cases "search_loop sp' qs' [] [CreateCall user_id name]")
    with search_loop_calls [of sp' qs' "[]" "[CreateCall user_id name]"]
    obtain cs where "calls = CreateCall user_id name # cs" by auto
    with Inr l show ?thesis
      by (cases r) (auto simp: create_playlist_and_add_tracks_def split: sum.splits)
  qed
  from main first skipped_iff show ?thesis by blast
qed

lemma example_skipped:
  "skipped []" "skipped (codes '' '')" "skipped [0xA0]" "skipped [0x2003, 0x20, 0x85]"
  "\<not> skipped (codes ''Imagine - John Lennon'')" "\<not> skipped (codes ''Unknown Track 2'')"
  "\<not> skipped (codes ''Nothing'')"
  by (simp_all add: skipped_iff is_space_def codes_def)

theorem consumer_robustness_witness:
  "create_playlist_and_add_tracks example_spotify ''me'' ''Radio''
     [codes ''Imagine - John Lennon'', codes '' '', [0xA0], codes ''Unknown Track 2'',
      [0x2003, 0x20, 0x85], [], codes ''Nothing'']
   = ([CreateCall ''me'' ''Radio'', SearchCall (codes ''Imagine - John Lennon''),
       SearchCall (codes ''Unknown Track 2''), SearchCall (codes ''Nothing''),
       AddCall ''p1'' [''spotify:track:1'']],
      Inr \<lparr>playlist_id = ''p1'', playlist_url = ''u''\<rparr>)"
proof -
  let ?qs = "[codes ''Imagine - John Lennon'', codes '' '', [0xA0], codes ''Unknown Track 2'',
              [0x2003, 0x20, 0x85], [], codes ''Nothing'']"
  let ?pl = "\<lparr>playlist_id = ''p1'', playlist_url = ''u''\<rparr>"
  have h1: "user_playlist_create example_spotify ''me'' ''Radio'' = Inr ?pl"
    by (simp add: example_spotify_def)
  have h2: "list_all (\<lambda>q. skipped q \<or> no_other_error example_spotify q) ?qs"
    by (simp add: example_skipped no_other_error_def example_spotify_def codes_eq_iff)
  have hs: "hits example_spotify ?qs = [''spotify:track:1'']"
    by (simp add: hits_def example_skipped example_spotify_def codes_eq_iff)
  have h3: "hits example_spotify ?qs \<noteq> []
      \<longrightarrow> playlist_add_items example_spotify (playlist_id ?pl) (hits example_spotify ?qs) = Inr ()"
    by (simp add: example_spotify_def)
  from consumer_robustness [OF h1 h2 h3] hs show ?thesis
    by (simp add: searched_def example_skipped)
qed

end
